theory Spec2Isabelle
  imports Main "HOL-Library.Word" "HOL-Library.Multiset"
begin

unbundle bit_operations_syntax

section \<open>The reboot-mode core library (drivers/power/reset/reboot-mode.c)\<close>

text \<open>
  A C string is modelled by the list of its characters before the terminating NUL, a
  possibly NULL \<^verbatim>\<open>const char *\<close> by a \<^typ>\<open>string option\<close>. The magic numbers are
  64-bit words, the cells of a device-tree property 32-bit words. Error codes are the
  negated errno values the C functions return.

  Modelled from the spec: the errno values and the notifier return values are not in
  the driver's file; they are given the values of the kernel headers.
\<close>

type_synonym u32 = "32 word"
type_synonym u64 = "64 word"
type_synonym addr = nat

definition EINVAL :: int where "EINVAL = 22"
definition ENOMEM :: int where "ENOMEM = 12"
definition E2BIG :: int where "E2BIG = 7"

definition NOTIFY_DONE :: int where "NOTIFY_DONE = 0"
definition NOTIFY_STOP_MASK :: int where "NOTIFY_STOP_MASK = 32768"

definition PREFIX :: string where "PREFIX = ''mode-''"

subsection \<open>String helpers of the kernel library\<close>

text \<open>
  Modelled from the spec: \<open>strcmp\<close>, \<open>strncmp\<close> and \<open>strreplace\<close> are not in the driver's
  file (they live in lib/string.c); they are given their documented behaviour. \<open>strcmp\<close>
  compares as unsigned bytes and yields the sign of the first difference; the end of a
  list is the NUL byte, which is smaller than every character of a C string. \<open>strncmp\<close>
  does the same on at most \<open>n\<close> characters. \<open>strreplace\<close> overwrites, in place, every
  occurrence of one character by another.
\<close>

fun strcmp :: "string \<Rightarrow> string \<Rightarrow> int" where
  "strcmp [] [] = 0"
| "strcmp [] (c2 # ct) = - 1"
| "strcmp (c1 # cs) [] = 1"
| "strcmp (c1 # cs) (c2 # ct) =
     (if c1 \<noteq> c2 then (if (of_char c1 :: nat) < of_char c2 then - 1 else 1)
      else strcmp cs ct)"

fun strncmp :: "string \<Rightarrow> string \<Rightarrow> nat \<Rightarrow> int" where
  "strncmp cs ct 0 = 0"
| "strncmp [] [] (Suc n) = 0"
| "strncmp [] (c2 # ct) (Suc n) = - 1"
| "strncmp (c1 # cs) [] (Suc n) = 1"
| "strncmp (c1 # cs) (c2 # ct) (Suc n) =
     (if c1 \<noteq> c2 then (if (of_char c1 :: nat) < of_char c2 then - 1 else 1)
      else strncmp cs ct n)"

definition strreplace :: "string \<Rightarrow> char \<Rightarrow> char \<Rightarrow> string" where
  "strreplace str old new = map (\<lambda>c. if c = old then new else c) str"

text \<open>
  Modelled from the spec: \<open>strscpy\<close> is not in the driver's file. It copies the source
  into a destination of \<open>cnt\<close> bytes, always NUL-terminated, and returns the number of
  characters copied or \<open>-E2BIG\<close> when \<open>cnt\<close> is 0 or the source did not fit and was
  truncated. \<open>dest\<close> is the C string left in the destination, \<open>stored\<close> the number of
  bytes the call stored there (terminator included), \<open>res\<close> the value returned.
\<close>

record strscpy_result =
  dest :: string
  stored :: nat
  res :: int

definition strscpy :: "string \<Rightarrow> nat \<Rightarrow> strscpy_result" where
  "strscpy src cnt =
     (if cnt = 0 then \<lparr>dest = [], stored = 0, res = - E2BIG\<rparr>
      else if length src < cnt
        then \<lparr>dest = src, stored = length src + 1, res = int (length src)\<rparr>
      else \<lparr>dest = take (cnt - 1) src, stored = cnt, res = - E2BIG\<rparr>)"

subsection \<open>Kernel memory\<close>

text \<open>
  Modelled from the spec: the allocator (\<open>kzalloc\<close>, \<open>kstrdup_const\<close>, \<open>kfree\<close>,
  \<open>kfree_const\<close>) is not in the driver's file. \<open>live\<close> holds the addresses of the
  allocations not yet freed; \<open>attempts\<close> counts the allocation requests made so far;
  request number \<open>k\<close> fails (returns NULL) exactly when \<open>fails k\<close>. A successful request
  is given its own number as address. The names of device-tree properties are not in
  the kernel's read-only data, so \<open>kstrdup_const\<close> allocates a copy and \<open>kfree_const\<close>
  frees it.
\<close>

record kmem =
  live :: "addr multiset"
  attempts :: nat
  fails :: "nat \<Rightarrow> bool"

definition kzalloc :: "kmem \<Rightarrow> addr option \<times> kmem" where
  "kzalloc m =
     (if fails m (attempts m) then (None, m\<lparr>attempts := Suc (attempts m)\<rparr>)
      else (Some (attempts m),
            m\<lparr>live := add_mset (attempts m) (live m), attempts := Suc (attempts m)\<rparr>))"

definition kstrdup_const :: "string \<Rightarrow> kmem \<Rightarrow> addr option \<times> kmem" where
  "kstrdup_const s m = kzalloc m"

definition kfree :: "addr \<Rightarrow> kmem \<Rightarrow> kmem" where
  "kfree a m = m\<lparr>live := live m - {#a#}\<rparr>"

definition kfree_const :: "addr \<Rightarrow> kmem \<Rightarrow> kmem" where
  "kfree_const a m = kfree a m"

subsection \<open>Device-tree nodes\<close>

text \<open>
  Modelled from the spec: the device-tree accessors are not in the driver's file. A
  property is a key with a value of zero or more 32-bit cells (the low magic, then the
  optional high one). \<open>of_property_read_u32_index\<close> finds the first property of the node
  with the given name and reads the cell at the index; it fails when there is no such
  property or the value is too short. \<open>of_property_read_u32\<close> reads cell 0.
\<close>

record property =
  name :: string
  cells :: "u32 list"

record device_node =
  properties :: "property list"

definition of_property_read_u32_index :: "device_node \<Rightarrow> string \<Rightarrow> nat \<Rightarrow> u32 option" where
  "of_property_read_u32_index np propname index =
     (case find (\<lambda>pp. strcmp (name pp) propname = 0) (properties np) of
        None \<Rightarrow> None
      | Some pp \<Rightarrow> if index < length (cells pp) then Some (cells pp ! index) else None)"

definition of_property_read_u32 :: "device_node \<Rightarrow> string \<Rightarrow> u32 option" where
  "of_property_read_u32 np propname = of_property_read_u32_index np propname 0"

subsection \<open>The mode table\<close>

text \<open>
  \<open>struct mode_info\<close>: \<open>mode\<close> is the string the \<open>mode\<close> pointer points to and \<open>mode_addr\<close>
  the address of its storage, \<open>self\<close> the address of the struct. The intrusive list is
  the list of the entries in order. The driver keeps the head of the list; \<open>writes\<close>
  logs the magic values handed to its \<open>write\<close> callback, and \<open>registered\<close> says whether
  its notifier is on the reboot notifier chain. The mutex \<open>rb_lock\<close> is taken and
  released around every access to the list and has no effect on a sequential run.
\<close>

record mode_info =
  mode :: string
  magic :: u64
  mode_addr :: addr
  self :: addr

record reboot_mode_driver =
  head :: "mode_info list"
  writes :: "u64 list"
  registered :: bool

definition list_add_tail :: "mode_info \<Rightarrow> mode_info list \<Rightarrow> mode_info list" where
  "list_add_tail info lst = lst @ [info]"

text \<open>
  The loop \<^verbatim>\<open>list_for_each_entry(info, &reboot->head, list) if (!strcmp(info->mode, cmd))
  return info->magic;\<close> of \<open>get_reboot_mode_magic\<close>; \<open>None\<close> when it falls through.
\<close>

fun list_for_each_entry :: "mode_info list \<Rightarrow> string \<Rightarrow> u64 option" where
  "list_for_each_entry [] cmd = None"
| "list_for_each_entry (info # rest) cmd =
     (if strcmp (mode info) cmd = 0 then Some (magic info)
      else list_for_each_entry rest cmd)"

definition normal :: string where "normal = ''normal''"

text \<open>\<^verbatim>\<open>if (!cmd) cmd = normal;\<close>\<close>

definition cmd_or_normal :: "string option \<Rightarrow> string" where
  "cmd_or_normal cmd0 = (case cmd0 of None \<Rightarrow> normal | Some c \<Rightarrow> c)"

text \<open>\<^verbatim>\<open>char cmd_[110];\<close> and its \<open>sizeof\<close>.\<close>

definition sizeof_cmd_buf :: nat where "sizeof_cmd_buf = 110"

text \<open>
  The body of \<open>get_reboot_mode_magic\<close>, with what it does to its local buffer: the result
  is the value returned and the number of bytes of \<open>cmd_\<close>, counted from its start, that
  the call has stored. No byte is stored when the first scan returns. After the copy
  the buffer holds what \<open>strscpy\<close> stored; after the replacements, done in place, it
  holds the string they leave and its terminator.
\<close>

definition get_reboot_mode_magic_run ::
  "reboot_mode_driver \<Rightarrow> string option \<Rightarrow> u64 \<times> nat" where
  "get_reboot_mode_magic_run reboot cmd0 =
     (let cmd = cmd_or_normal cmd0 in
      case list_for_each_entry (head reboot) cmd of
        Some m \<Rightarrow> (m, 0)
      | None \<Rightarrow>
          let r = strscpy cmd sizeof_cmd_buf in
          if res r = - E2BIG then (0, stored r)
          else
            let cmd_buf = strreplace (strreplace (strreplace (dest r) CHR '' '' CHR ''-'')
                                     CHR '','' CHR ''-'') CHR ''/'' CHR ''-'';
                used = max (stored r) (length cmd_buf + 1) in
            case list_for_each_entry (head reboot) cmd_buf of
              Some m \<Rightarrow> (m, used)
            | None \<Rightarrow> (0, used))"

text \<open>The value \<open>get_reboot_mode_magic\<close> returns, and the bytes of \<open>cmd_\<close> it stores.\<close>

definition get_reboot_mode_magic :: "reboot_mode_driver \<Rightarrow> string option \<Rightarrow> u64" where
  "get_reboot_mode_magic reboot cmd0 = fst (get_reboot_mode_magic_run reboot cmd0)"

definition cmd_buf_stored :: "reboot_mode_driver \<Rightarrow> string option \<Rightarrow> nat" where
  "cmd_buf_stored reboot cmd0 = snd (get_reboot_mode_magic_run reboot cmd0)"

text \<open>The \<open>write\<close> callback belongs to the platform driver; its calls are logged.\<close>

definition write_cb :: "reboot_mode_driver \<Rightarrow> u64 \<Rightarrow> reboot_mode_driver" where
  "write_cb reboot m = reboot\<lparr>writes := writes reboot @ [m]\<rparr>"

definition reboot_mode_notify ::
  "reboot_mode_driver \<Rightarrow> u64 \<Rightarrow> string option \<Rightarrow> int \<times> reboot_mode_driver" where
  "reboot_mode_notify reboot mode_arg cmd =
     (let m = get_reboot_mode_magic reboot cmd;
          reboot' = (if m \<noteq> 0 then write_cb reboot m else reboot)
      in (NOTIFY_DONE, reboot'))"

subsection \<open>Registration\<close>

text \<open>
  The body of \<^verbatim>\<open>for_each_property_of_node\<close> in \<open>reboot_mode_register\<close>, over the
  properties still to visit. The result is \<open>None\<close> when the loop ran to its end and
  \<open>Some ret\<close> when it left by \<^verbatim>\<open>goto error\<close> with that \<open>ret\<close>.
\<close>

fun for_each_property_of_node ::
  "device_node \<Rightarrow> property list \<Rightarrow> mode_info list \<Rightarrow> kmem \<Rightarrow> int option \<times> mode_info list \<times> kmem"
where
  "for_each_property_of_node np [] lst m = (None, lst, m)"
| "for_each_property_of_node np (prop # rest) lst m =
     (if strncmp (name prop) PREFIX (length PREFIX) \<noteq> 0
      then for_each_property_of_node np rest lst m
      else
        case kzalloc m of
          (None, m1) \<Rightarrow> (Some (- ENOMEM), lst, m1)
        | (Some info, m1) \<Rightarrow>
            (case of_property_read_u32 np (name prop) of
               None \<Rightarrow> for_each_property_of_node np rest lst (kfree info m1)
             | Some magic_arg1 \<Rightarrow>
                 let magic_arg2 =
                       (case of_property_read_u32_index np (name prop) 1 of
                          None \<Rightarrow> 0 | Some v \<Rightarrow> v);
                     mg = push_bit 32 (ucast magic_arg2 :: u64) OR ucast magic_arg1;
                     md = drop (length PREFIX) (name prop)
                 in
                   case kstrdup_const md m1 of
                     (None, m2) \<Rightarrow> (Some (- ENOMEM), lst, kfree info m2)
                   | (Some p, m2) \<Rightarrow>
                       if md = [] then (Some (- EINVAL), lst, kfree info (kfree_const p m2))
                       else for_each_property_of_node np rest
                              (list_add_tail
                                 \<lparr>mode = md, magic = mg, mode_addr = p, self = info\<rparr> lst) m2))"

text \<open>
  The loop under the label \<open>error\<close> (the same loop is \<open>reboot_mode_unregister\<close>'s): every
  entry is unlinked, its name and the entry itself are freed. The list left is returned.
\<close>

fun list_for_each_entry_safe :: "mode_info list \<Rightarrow> kmem \<Rightarrow> mode_info list \<times> kmem" where
  "list_for_each_entry_safe [] m = ([], m)"
| "list_for_each_entry_safe (info # next) m =
     list_for_each_entry_safe next (kfree (self info) (kfree_const (mode_addr info) m))"

definition reboot_mode_register ::
  "reboot_mode_driver \<Rightarrow> device_node option \<Rightarrow> kmem \<Rightarrow> int \<times> reboot_mode_driver \<times> kmem" where
  "reboot_mode_register reboot np0 m =
     (case np0 of
        None \<Rightarrow> (- EINVAL, reboot, m)
      | Some np \<Rightarrow>
          (case for_each_property_of_node np (properties np) [] m of
             (None, lst, m') \<Rightarrow> (0, reboot\<lparr>head := lst, registered := True\<rparr>, m')
           | (Some ret, lst, m') \<Rightarrow>
               (case list_for_each_entry_safe lst m' of
                  (lst', m'') \<Rightarrow> (ret, reboot\<lparr>head := lst'\<rparr>, m''))))"

subsection \<open>Notions of the specification\<close>

text \<open>
  The specification's normalized copy of a requested mode: every space, comma and
  forward slash is replaced by a hyphen.
\<close>

definition spec_normalize :: "string \<Rightarrow> string" where
  "spec_normalize s =
     map (\<lambda>c. if c = CHR '' '' \<or> c = CHR '','' \<or> c = CHR ''/'' then CHR ''-'' else c) s"

text \<open>
  A configuration entry qualifies when its key carries the prefix. Its low magic value
  is present when the read of cell 0 under its key succeeds. The specification expects
  no entry for a key without low magic, and otherwise the entry with the key without
  the prefix as name and \<open>(high << 32) | low\<close> as magic, \<open>high\<close> being 0 when absent.
\<close>

definition qualifies :: "property \<Rightarrow> bool" where
  "qualifies p \<longleftrightarrow> take (length PREFIX) (name p) = PREFIX"

definition has_low :: "device_node \<Rightarrow> property \<Rightarrow> bool" where
  "has_low np p \<longleftrightarrow> of_property_read_u32 np (name p) \<noteq> None"

definition spec_entry :: "device_node \<Rightarrow> property \<Rightarrow> (string \<times> u64) option" where
  "spec_entry np p =
     (case of_property_read_u32 np (name p) of
        None \<Rightarrow> None
      | Some low \<Rightarrow>
          let high = (case of_property_read_u32_index np (name p) 1 of None \<Rightarrow> 0 | Some v \<Rightarrow> v)
          in Some (drop (length PREFIX) (name p), push_bit 32 (ucast high) OR ucast low))"

text \<open>The addresses a list of entries owns: each entry and the storage of its name.\<close>

definition owned :: "mode_info list \<Rightarrow> addr multiset" where
  "owned lst = (\<Sum>i\<leftarrow>lst. {#self i, mode_addr i#})"

section \<open>Strings and the table scan\<close>

lemma strcmp_eq_0: "strcmp cs ct = 0 \<longleftrightarrow> cs = ct"
  by (induction cs ct rule: strcmp.induct) auto

lemma strncmp_eq_0: "strncmp cs ct n = 0 \<longleftrightarrow> take n cs = take n ct"
  by (induction cs ct n rule: strncmp.induct) auto

lemma strncmp_take: "strncmp cs ct n \<noteq> 0 \<longleftrightarrow> take n cs \<noteq> take n ct"
  by (simp add: strncmp_eq_0)

lemma strncmp_PREFIX: "strncmp (name p) PREFIX (length PREFIX) = 0 \<longleftrightarrow> qualifies p"
  by (simp add: strncmp_eq_0 qualifies_def)

text \<open>The scan returns the magic of the first entry whose name is the string sought.\<close>

lemma list_for_each_entry_find:
  "list_for_each_entry tbl cmd = map_option magic (find (\<lambda>i. mode i = cmd) tbl)"
  by (induction tbl) (auto simp: strcmp_eq_0)

lemma find_None_mode:
  "(\<forall>i\<in>set tbl. mode i \<noteq> c) \<Longrightarrow> find (\<lambda>i. mode i = c) tbl = None"
  by (simp add: find_None_iff)

text \<open>The three calls of \<open>strreplace\<close> compute the specification's normalized copy.\<close>

lemma strreplace_normalize:
  "strreplace (strreplace (strreplace s CHR '' '' CHR ''-'') CHR '','' CHR ''-'') CHR ''/'' CHR ''-''
     = spec_normalize s"
  by (simp add: strreplace_def spec_normalize_def)

lemma length_strreplace: "length (strreplace s old new) = length s"
  by (simp add: strreplace_def)

section \<open>The three outcomes of the lookup\<close>

lemma get_magic_exact:
  "find (\<lambda>i. mode i = cmd_or_normal cmd0) (head reboot) = Some e \<Longrightarrow>
     get_reboot_mode_magic reboot cmd0 = magic e"
  by (simp add: get_reboot_mode_magic_def get_reboot_mode_magic_run_def list_for_each_entry_find)

lemma get_magic_overlong:
  "find (\<lambda>i. mode i = cmd_or_normal cmd0) (head reboot) = None \<Longrightarrow>
     sizeof_cmd_buf \<le> length (cmd_or_normal cmd0) \<Longrightarrow> get_reboot_mode_magic reboot cmd0 = 0"
  by (simp add: get_reboot_mode_magic_def get_reboot_mode_magic_run_def list_for_each_entry_find strscpy_def E2BIG_def
      sizeof_cmd_buf_def)

lemma get_magic_normalized:
  "find (\<lambda>i. mode i = cmd_or_normal cmd0) (head reboot) = None \<Longrightarrow>
     length (cmd_or_normal cmd0) < sizeof_cmd_buf \<Longrightarrow>
     get_reboot_mode_magic reboot cmd0 =
       (case find (\<lambda>i. mode i = spec_normalize (cmd_or_normal cmd0)) (head reboot) of
          Some e \<Rightarrow> magic e | None \<Rightarrow> 0)"
  by (simp add: get_reboot_mode_magic_def get_reboot_mode_magic_run_def list_for_each_entry_find strscpy_def E2BIG_def
      sizeof_cmd_buf_def strreplace_normalize Let_def split: option.splits)

text \<open>Whatever the table and the request, the call stores no byte beyond \<open>cmd_\<close>.\<close>

lemma cmd_buf_stored_le: "cmd_buf_stored reboot cmd0 \<le> sizeof_cmd_buf"
  by (simp add: cmd_buf_stored_def get_reboot_mode_magic_run_def strscpy_def Let_def
      length_strreplace E2BIG_def sizeof_cmd_buf_def split: option.splits)

lemma find_first_named:
  "\<forall>i\<in>set pre. mode i \<noteq> n \<Longrightarrow> mode a = n \<Longrightarrow>
     find (\<lambda>i. mode i = n) (pre @ a # rest) = Some a"
  by (induction pre) auto

section \<open>Registration: memory and the table built\<close>

lemma owned_simps [simp]:
  "owned [] = {#}" "owned (i # lst) = {#self i, mode_addr i#} + owned lst"
  "owned (xs @ ys) = owned xs + owned ys"
  by (simp_all add: owned_def)

lemma kzalloc_None:
  "kzalloc m = (None, m1) \<Longrightarrow>
     live m1 = live m \<and> fails m1 = fails m \<and> attempts m1 = Suc (attempts m) \<and> fails m (attempts m)"
  by (auto simp: kzalloc_def split: if_splits)

lemma kzalloc_Some:
  "kzalloc m = (Some a, m1) \<Longrightarrow>
     live m1 = add_mset a (live m) \<and> fails m1 = fails m \<and> attempts m1 = Suc (attempts m)
     \<and> \<not> fails m (attempts m)"
  by (auto simp: kzalloc_def split: if_splits)

lemma kfree_simps [simp]:
  "live (kfree a m) = live m - {#a#}" "fails (kfree a m) = fails m"
  "attempts (kfree a m) = attempts m"
  "live (kfree_const a m) = live m - {#a#}" "fails (kfree_const a m) = fails m"
  "attempts (kfree_const a m) = attempts m"
  by (simp_all add: kfree_def kfree_const_def)

lemma qualifies_empty_name:
  "strncmp (name p) PREFIX (length PREFIX) = 0 \<Longrightarrow> drop (length PREFIX) (name p) = [] \<Longrightarrow>
     name p = PREFIX"
proof -
  assume "strncmp (name p) PREFIX (length PREFIX) = 0"
  then have "take (length PREFIX) (name p) = PREFIX" by (simp add: strncmp_eq_0)
  moreover assume "drop (length PREFIX) (name p) = []"
  then have "take (length PREFIX) (name p) = name p" by simp
  ultimately show ?thesis by simp
qed

lemma loop_result:
  "for_each_property_of_node np ps lst m = (r, lst', m') \<Longrightarrow>
     (\<exists>new. lst' = lst @ new \<and> live m' = live m + owned new) \<and> fails m' = fails m
       \<and> attempts m \<le> attempts m'
       \<and> (\<forall>ret. r = Some ret \<longrightarrow>
             (ret = - ENOMEM \<and> (\<exists>k. fails m k))
           \<or> (ret = - EINVAL \<and> (\<exists>p\<in>set ps. name p = PREFIX)))"
proof (induction ps arbitrary: lst m)
  case Nil
  then show ?case by simp
next
  case (Cons pr rest)
  show ?case
  proof (cases "strncmp (name pr) PREFIX (length PREFIX) \<noteq> 0")
    case True
    with Cons.prems have "for_each_property_of_node np rest lst m = (r, lst', m')" by simp
    from Cons.IH [OF this] show ?thesis by auto
  next
    case q: False
    obtain oa m1 where k1: "kzalloc m = (oa, m1)" by (cases "kzalloc m")
    show ?thesis
    proof (cases oa)
      case None
      with Cons.prems q k1 have "lst' = lst" "m' = m1" "r = Some (- ENOMEM)" by auto
      with kzalloc_None [of m m1] k1 None show ?thesis by auto
    next
      case (Some info)
      note a1 = kzalloc_Some [OF k1 [unfolded Some]]
      show ?thesis
      proof (cases "of_property_read_u32 np (name pr)")
        case None
        with Cons.prems q k1 Some
        have "for_each_property_of_node np rest lst (kfree info m1) = (r, lst', m')" by simp
        from Cons.IH [OF this] a1 show ?thesis by auto
      next
        case low: (Some magic_arg1)
        obtain ob m2 where k2: "kstrdup_const (drop (length PREFIX) (name pr)) m1 = (ob, m2)"
          by (cases "kstrdup_const (drop (length PREFIX) (name pr)) m1")
        show ?thesis
        proof (cases ob)
          case None
          with Cons.prems q k1 Some low k2
          have "lst' = lst" "m' = kfree info m2" "r = Some (- ENOMEM)"
            by (auto simp: Let_def)
          with kzalloc_None [of m1 m2] k2 None a1 show ?thesis
            by (auto simp: kstrdup_const_def)
        next
          case p: (Some p)
          note a2 = kzalloc_Some [OF k2 [unfolded p kstrdup_const_def]]
          show ?thesis
          proof (cases "drop (length PREFIX) (name pr) = []")
            case True
            with Cons.prems q k1 Some low k2 p
            have "lst' = lst" "m' = kfree info (kfree_const p m2)" "r = Some (- EINVAL)"
              by (auto simp: Let_def)
            moreover from q have "strncmp (name pr) PREFIX (length PREFIX) = 0" by simp
            then have "name pr = PREFIX" using True by (rule qualifies_empty_name)
            ultimately show ?thesis using a1 a2 by auto
          next
            case False
            let ?mi = "\<lparr>mode = drop (length PREFIX) (name pr),
                magic = push_bit 32 (ucast (case of_property_read_u32_index np (name pr) 1 of
                                       None \<Rightarrow> 0 | Some v \<Rightarrow> v) :: u64) OR ucast magic_arg1,
                mode_addr = p, self = info\<rparr>"
            from False Cons.prems q k1 Some low k2 p
            have rec: "for_each_property_of_node np rest (list_add_tail ?mi lst) m2 = (r, lst', m')"
              by (simp add: Let_def)
            from Cons.IH [OF rec] a1 a2 show ?thesis
              by (auto simp: list_add_tail_def)
          qed
        qed
      qed
    qed
  qed
qed

lemma free_all:
  "list_for_each_entry_safe lst m = (lst', m') \<Longrightarrow>
     lst' = [] \<and> live m' = live m - owned lst \<and> fails m' = fails m"
  by (induction lst arbitrary: m) (auto simp: diff_diff_add add.commute)


lemma kzalloc_ok:
  "\<not> fails m (attempts m) \<Longrightarrow>
     kzalloc m = (Some (attempts m),
                  m\<lparr>live := add_mset (attempts m) (live m), attempts := Suc (attempts m)\<rparr>)"
  by (simp add: kzalloc_def)

text \<open>
  When no allocation fails and no qualifying key is the bare prefix, the loop runs to
  its end and appends, in scan order, one entry for each qualifying property whose low
  magic can be read.
\<close>

lemma loop_success:
  assumes "\<forall>k. \<not> fails m k"
    and "\<forall>p\<in>set ps. qualifies p \<longrightarrow> drop (length PREFIX) (name p) \<noteq> []"
  shows "\<exists>lst' m'. for_each_property_of_node np ps lst m = (None, lst', m')
     \<and> map (\<lambda>i. (mode i, magic i)) lst'
         = map (\<lambda>i. (mode i, magic i)) lst
           @ List.map_filter (spec_entry np) (filter qualifies ps)"
  using assms
proof (induction ps arbitrary: lst m)
  case Nil
  then show ?case by simp
next
  case (Cons pr rest)
  from Cons.prems have nf: "\<not> fails m (attempts m)" by simp
  let ?m1 = "m\<lparr>live := add_mset (attempts m) (live m), attempts := Suc (attempts m)\<rparr>"
  have k1: "kzalloc m = (Some (attempts m), ?m1)" using nf by (rule kzalloc_ok)
  from Cons.prems have rest_ok:
    "\<forall>p\<in>set rest. qualifies p \<longrightarrow> drop (length PREFIX) (name p) \<noteq> []" by simp
  show ?case
  proof (cases "qualifies pr")
    case False
    then have "for_each_property_of_node np (pr # rest) lst m
                 = for_each_property_of_node np rest lst m"
      by (simp add: strncmp_PREFIX)
    with Cons.IH [OF Cons.prems(1) rest_ok, of lst] False show ?thesis by simp
  next
    case q: True
    show ?thesis
    proof (cases "of_property_read_u32 np (name pr)")
      case None
      have nf': "\<forall>k. \<not> fails (kfree (attempts m) ?m1) k" using Cons.prems(1) by simp
      from q None k1 have "for_each_property_of_node np (pr # rest) lst m
                 = for_each_property_of_node np rest lst (kfree (attempts m) ?m1)"
        by (simp add: strncmp_PREFIX)
      with Cons.IH [OF nf' rest_ok, of lst] q None show ?thesis
        by (simp add: spec_entry_def map_filter_simps)
    next
      case (Some magic_arg1)
      have nf2: "\<not> fails ?m1 (attempts ?m1)" using Cons.prems(1) by simp
      let ?m2 = "?m1\<lparr>live := add_mset (attempts ?m1) (live ?m1), attempts := Suc (attempts ?m1)\<rparr>"
      have k2: "kstrdup_const (drop (length PREFIX) (name pr)) ?m1 = (Some (attempts ?m1), ?m2)"
        unfolding kstrdup_const_def using nf2 by (rule kzalloc_ok)
      have nf': "\<forall>k. \<not> fails ?m2 k" using Cons.prems(1) by simp
      from q Cons.prems(2) have ne: "drop (length PREFIX) (name pr) \<noteq> []" by simp
      let ?mi = "\<lparr>mode = drop (length PREFIX) (name pr),
                magic = push_bit 32 (ucast (case of_property_read_u32_index np (name pr) 1 of
                                       None \<Rightarrow> 0 | Some v \<Rightarrow> v) :: u64) OR ucast magic_arg1,
                mode_addr = attempts ?m1, self = attempts m\<rparr>"
      from q Some k1 k2 ne have "for_each_property_of_node np (pr # rest) lst m
                 = for_each_property_of_node np rest (list_add_tail ?mi lst) ?m2"
        by (simp add: strncmp_PREFIX Let_def)
      with Cons.IH [OF nf' rest_ok, of "list_add_tail ?mi lst"] q Some show ?thesis
        by (simp add: list_add_tail_def spec_entry_def map_filter_simps)
    qed
  qed
qed

lemma length_spec_entries:
  "length (List.map_filter (spec_entry np) (filter qualifies ps))
     + length (filter (\<lambda>p. qualifies p \<and> \<not> has_low np p) ps)
     = length (filter qualifies ps)"
  by (induction ps) (auto simp: map_filter_simps spec_entry_def has_low_def split: option.splits)

text \<open>
  Every entry of the table registration leaves is the entry of a qualifying property of
  the node. The magic is read back under the key, so entries of one name have one magic.
\<close>

lemma spec_entry_name: "name p = name q \<Longrightarrow> spec_entry np p = spec_entry np q"
  by (simp add: spec_entry_def cong: option.case_cong)

lemma qualifies_name:
  assumes "qualifies p" and "spec_entry np p = Some (md, mg)"
  shows "name p = PREFIX @ md"
proof -
  from assms(2) have "md = drop (length PREFIX) (name p)"
    by (auto simp: spec_entry_def Let_def split: option.splits)
  moreover from assms(1) have "take (length PREFIX) (name p) = PREFIX"
    by (simp add: qualifies_def)
  ultimately show ?thesis by (metis append_take_drop_id)
qed

lemma loop_entries:
  "for_each_property_of_node np ps lst m = (r, lst', m') \<Longrightarrow> i \<in> set lst' \<Longrightarrow>
     i \<in> set lst \<or> (\<exists>p\<in>set ps. qualifies p \<and> spec_entry np p = Some (mode i, magic i))"
proof (induction ps arbitrary: lst m)
  case Nil
  then show ?case by simp
next
  case (Cons pr rest)
  show ?case
  proof (cases "qualifies pr")
    case False
    with Cons.prems have "for_each_property_of_node np rest lst m = (r, lst', m')"
      by (simp add: strncmp_PREFIX)
    from Cons.IH [OF this Cons.prems(2)] show ?thesis by auto
  next
    case q: True
    obtain oa m1 where k1: "kzalloc m = (oa, m1)" by (cases "kzalloc m")
    show ?thesis
    proof (cases oa)
      case None
      with Cons.prems(1) q k1 have "lst' = lst" by (simp add: strncmp_PREFIX)
      with Cons.prems(2) show ?thesis by simp
    next
      case (Some info)
      show ?thesis
      proof (cases "of_property_read_u32 np (name pr)")
        case None
        with Cons.prems(1) q k1 Some
        have "for_each_property_of_node np rest lst (kfree info m1) = (r, lst', m')"
          by (simp add: strncmp_PREFIX)
        from Cons.IH [OF this Cons.prems(2)] show ?thesis by auto
      next
        case low: (Some magic_arg1)
        obtain ob m2 where k2: "kstrdup_const (drop (length PREFIX) (name pr)) m1 = (ob, m2)"
          by (cases "kstrdup_const (drop (length PREFIX) (name pr)) m1")
        show ?thesis
        proof (cases "ob = None \<or> drop (length PREFIX) (name pr) = []")
          case True
          with Cons.prems(1) q k1 Some low k2 have "lst' = lst"
            by (auto simp: strncmp_PREFIX Let_def split: option.splits)
          with Cons.prems(2) show ?thesis by simp
        next
          case False
          then obtain p where p: "ob = Some p" by auto
          let ?mi = "\<lparr>mode = drop (length PREFIX) (name pr),
                magic = push_bit 32 (ucast (case of_property_read_u32_index np (name pr) 1 of
                                       None \<Rightarrow> 0 | Some v \<Rightarrow> v) :: u64) OR ucast magic_arg1,
                mode_addr = p, self = info\<rparr>"
          from False Cons.prems(1) q k1 Some low k2 p
          have rec: "for_each_property_of_node np rest (list_add_tail ?mi lst) m2 = (r, lst', m')"
            by (simp add: strncmp_PREFIX Let_def)
          have mi: "spec_entry np pr = Some (mode ?mi, magic ?mi)"
            using low by (simp add: spec_entry_def)
          from Cons.IH [OF rec Cons.prems(2)] show ?thesis
          proof
            assume "i \<in> set (list_add_tail ?mi lst)"
            then have "i \<in> set lst \<or> i = ?mi" by (auto simp: list_add_tail_def)
            then show ?thesis
            proof
              assume "i \<in> set lst" then show ?thesis by simp
            next
              assume "i = ?mi"
              with mi q have "qualifies pr \<and> spec_entry np pr = Some (mode i, magic i)" by simp
              then show ?thesis by auto
            qed
          next
            assume "\<exists>p\<in>set rest. qualifies p \<and> spec_entry np p = Some (mode i, magic i)"
            then show ?thesis by auto
          qed
        qed
      qed
    qed
  qed
qed

lemma register_entries:
  assumes run: "reboot_mode_register reboot0 (Some np) m = (ret, reboot, m')"
    and i: "i \<in> set (head reboot)"
  shows "\<exists>p\<in>set (properties np). qualifies p \<and> spec_entry np p = Some (mode i, magic i)"
proof -
  obtain r lst m1 where loop: "for_each_property_of_node np (properties np) [] m = (r, lst, m1)"
    by (cases "for_each_property_of_node np (properties np) [] m")
  show ?thesis
  proof (cases r)
    case None
    with run loop have "head reboot = lst" by (auto simp: reboot_mode_register_def)
    with loop_entries [OF loop, of i] i show ?thesis by simp
  next
    case (Some ret0)
    obtain lst2 m2 where fr: "list_for_each_entry_safe lst m1 = (lst2, m2)"
      by (cases "list_for_each_entry_safe lst m1")
    with run loop Some have "head reboot = lst2" by (auto simp: reboot_mode_register_def)
    with free_all [OF fr] i show ?thesis by simp
  qed
qed

lemma register_same_name_same_magic:
  assumes run: "reboot_mode_register reboot0 (Some np) m = (ret, reboot, m')"
    and i: "i \<in> set (head reboot)" and j: "j \<in> set (head reboot)"
    and eq: "mode i = mode j"
  shows "magic i = magic j"
proof -
  from register_entries [OF run i] obtain p
    where p: "qualifies p" "spec_entry np p = Some (mode i, magic i)" by auto
  from register_entries [OF run j] obtain q
    where q: "qualifies q" "spec_entry np q = Some (mode j, magic j)" by auto
  from qualifies_name [OF p] qualifies_name [OF q] eq have "name p = name q" by simp
  then have "spec_entry np p = spec_entry np q" by (rule spec_entry_name)
  with p(2) q(2) show ?thesis by simp
qed

section \<open>Claims about the lookup\<close>

text \<open>
  C1. For every table registration has built that contains an entry named "re-covery"
  with magic 0x2A and no entry whose name equals the requested string verbatim, the
  lookup of "re/covery", of "re covery" and of "re,covery" each returns 0x2A: the exact
  pass finds nothing, every space, comma and slash of the request is replaced by a
  hyphen, and the table is scanned again in order.
\<close>

theorem resolve_re_covery_separators:
  assumes built: "reboot_mode_register reboot0 (Some np) m = (ret, reboot, m')"
    and ent: "e \<in> set (head reboot)" "mode e = ''re-covery''" "magic e = 0x2A"
    and req: "req \<in> {''re/covery'', ''re covery'', ''re,covery''}"
    and noexact: "\<forall>i\<in>set (head reboot). mode i \<noteq> req"
  shows "get_reboot_mode_magic reboot (Some req) = 0x2A"
proof -
  from ent(1,2) obtain f where f: "find (\<lambda>i. mode i = ''re-covery'') (head reboot) = Some f"
    by (cases "find (\<lambda>i. mode i = ''re-covery'') (head reboot)") (auto simp: find_None_iff)
  then have "f \<in> set (head reboot)" "mode f = ''re-covery''"
    by (auto simp: find_Some_iff)
  with register_same_name_same_magic [OF built _ ent(1)] ent(2,3) have mg: "magic f = 0x2A"
    by simp
  have none: "find (\<lambda>i. mode i = cmd_or_normal (Some req)) (head reboot) = None"
    using noexact by (simp add: cmd_or_normal_def find_None_mode)
  have len: "length (cmd_or_normal (Some req)) < sizeof_cmd_buf"
    using req by (auto simp: cmd_or_normal_def sizeof_cmd_buf_def)
  have norm: "spec_normalize (cmd_or_normal (Some req)) = ''re-covery''"
    using req by (auto simp: cmd_or_normal_def spec_normalize_def)
  show ?thesis
    using get_magic_normalized [OF none len] f mg by (simp add: norm)
qed

text \<open>The witness registers a node with the key "mode-re-covery" and looks the three up.\<close>

theorem resolve_re_covery_separators_witness:
  "(let res = reboot_mode_register \<lparr>head = [], writes = [], registered = False\<rparr>
                (Some \<lparr>properties = [\<lparr>name = ''compatible'', cells = []\<rparr>,
                                     \<lparr>name = ''mode-re-covery'', cells = [0x2A]\<rparr>,
                                     \<lparr>name = ''mode-normal'', cells = [1]\<rparr>]\<rparr>)
                \<lparr>live = {#}, attempts = 0, fails = (\<lambda>k. False)\<rparr>;
        reboot = fst (snd res)
    in head reboot = [\<lparr>mode = ''re-covery'', magic = 0x2A, mode_addr = 1, self = 0\<rparr>,
                      \<lparr>mode = ''normal'', magic = 1, mode_addr = 3, self = 2\<rparr>]
       \<and> get_reboot_mode_magic reboot (Some ''re/covery'') = 0x2A
       \<and> get_reboot_mode_magic reboot (Some ''re covery'') = 0x2A
       \<and> get_reboot_mode_magic reboot (Some ''re,covery'') = 0x2A)"
proof -
  let ?res = "reboot_mode_register \<lparr>head = [], writes = [], registered = False\<rparr>
                (Some \<lparr>properties = [\<lparr>name = ''compatible'', cells = []\<rparr>,
                                     \<lparr>name = ''mode-re-covery'', cells = [0x2A]\<rparr>,
                                     \<lparr>name = ''mode-normal'', cells = [1]\<rparr>]\<rparr>)
                \<lparr>live = {#}, attempts = 0, fails = (\<lambda>k. False)\<rparr>"
  let ?e = "\<lparr>mode = ''re-covery'', magic = 0x2A, mode_addr = 1, self = 0\<rparr>"
  have tbl: "head (fst (snd ?res)) = [?e, \<lparr>mode = ''normal'', magic = 1, mode_addr = 3, self = 2\<rparr>]"
    by (simp add: reboot_mode_register_def strncmp_take PREFIX_def kzalloc_def kstrdup_const_def
        of_property_read_u32_def of_property_read_u32_index_def strcmp_eq_0 Let_def
        list_add_tail_def kfree_def kfree_const_def)
  have run: "?res = (fst ?res, fst (snd ?res), snd (snd ?res))" by simp
  have ent: "?e \<in> set (head (fst (snd ?res)))" by (simp add: tbl)
  have a: "get_reboot_mode_magic (fst (snd ?res)) (Some ''re/covery'') = 0x2A"
    by (rule resolve_re_covery_separators [OF run ent]) (simp_all add: tbl)
  have b: "get_reboot_mode_magic (fst (snd ?res)) (Some ''re covery'') = 0x2A"
    by (rule resolve_re_covery_separators [OF run ent]) (simp_all add: tbl)
  have c: "get_reboot_mode_magic (fst (snd ?res)) (Some ''re,covery'') = 0x2A"
    by (rule resolve_re_covery_separators [OF run ent]) (simp_all add: tbl)
  from tbl a b c show ?thesis by (simp add: Let_def)
qed

text \<open>
  C2, as amended. For any table whose first entry named "re-covery" has magic 0x1 and
  that has no entry named "re/covery", the lookup of "re/covery" returns 0x1 by the
  normalized pass, which turns the slash into a hyphen.
\<close>

theorem resolve_slash_to_hyphen:
  assumes first: "find (\<lambda>i. mode i = ''re-covery'') (head reboot) = Some e"
    and mg: "magic e = 0x1"
    and noexact: "\<forall>i\<in>set (head reboot). mode i \<noteq> ''re/covery''"
  shows "get_reboot_mode_magic reboot (Some ''re/covery'') = 0x1"
proof -
  have none: "find (\<lambda>i. mode i = cmd_or_normal (Some ''re/covery'')) (head reboot) = None"
    using noexact by (simp add: cmd_or_normal_def find_None_mode)
  have len: "length (cmd_or_normal (Some ''re/covery'')) < sizeof_cmd_buf"
    by (simp add: cmd_or_normal_def sizeof_cmd_buf_def)
  have norm: "spec_normalize (cmd_or_normal (Some ''re/covery'')) = ''re-covery''"
    by (simp add: cmd_or_normal_def spec_normalize_def)
  show ?thesis
    using get_magic_normalized [OF none len] first mg by (simp add: norm)
qed

theorem resolve_slash_to_hyphen_witness:
  "(let reboot = \<lparr>head = [\<lparr>mode = ''recovery'', magic = 0x7, mode_addr = 1, self = 0\<rparr>,
                           \<lparr>mode = ''re-covery'', magic = 0x1, mode_addr = 3, self = 2\<rparr>],
                   writes = [], registered = True\<rparr>
    in find (\<lambda>i. mode i = ''re-covery'') (head reboot)
         = Some \<lparr>mode = ''re-covery'', magic = 0x1, mode_addr = 3, self = 2\<rparr>
       \<and> (\<forall>i\<in>set (head reboot). mode i \<noteq> ''re/covery'')
       \<and> get_reboot_mode_magic reboot (Some ''re/covery'') = 0x1)"
  using resolve_slash_to_hyphen
          [of "\<lparr>head = [\<lparr>mode = ''recovery'', magic = 0x7, mode_addr = 1, self = 0\<rparr>,
                        \<lparr>mode = ''re-covery'', magic = 0x1, mode_addr = 3, self = 2\<rparr>],
                writes = [], registered = True\<rparr>"
              "\<lparr>mode = ''re-covery'', magic = 0x1, mode_addr = 3, self = 2\<rparr>"]
  by simp

text \<open>
  C2 as stated fails: the table holds the entry ("recovery", 0x1) and no entry named
  "re/covery"; the request is normalized to "re-covery", which no entry is named, and
  the lookup returns 0, that is, not found.
\<close>

theorem resolve_recovery_counterexample:
  "get_reboot_mode_magic
     \<lparr>head = [\<lparr>mode = ''recovery'', magic = 0x1, mode_addr = 1, self = 0\<rparr>],
      writes = [], registered = True\<rparr> (Some ''re/covery'') = 0"
  by (simp add: get_reboot_mode_magic_def get_reboot_mode_magic_run_def cmd_or_normal_def strscpy_def strreplace_def E2BIG_def
      sizeof_cmd_buf_def)

text \<open>
  C3, as amended. For every table and every requested mode string that does not fit the
  110 bytes of the working buffer with its terminator (110 characters or more), the
  lookup never stores a byte past the buffer and, when no entry is named as the request
  verbatim, returns 0 (not found), whatever the table holds under the normalized
  string: the normalized pass is not attempted.
\<close>

theorem resolve_overlong_not_found:
  assumes long: "sizeof_cmd_buf \<le> length cmd"
  shows "((\<forall>i\<in>set (head reboot). mode i \<noteq> cmd) \<longrightarrow> get_reboot_mode_magic reboot (Some cmd) = 0)
       \<and> cmd_buf_stored reboot (Some cmd) \<le> sizeof_cmd_buf \<and> sizeof_cmd_buf = 110"
proof -
  have "get_reboot_mode_magic reboot (Some cmd) = 0"
    if noexact: "\<forall>i\<in>set (head reboot). mode i \<noteq> cmd"
  proof -
    have none: "find (\<lambda>i. mode i = cmd_or_normal (Some cmd)) (head reboot) = None"
      using noexact by (simp add: cmd_or_normal_def find_None_mode)
    show ?thesis using get_magic_overlong [OF none] long by (simp add: cmd_or_normal_def)
  qed
  moreover have "sizeof_cmd_buf = 110" by (simp add: sizeof_cmd_buf_def)
  ultimately show ?thesis using cmd_buf_stored_le [of reboot "Some cmd"] by simp
qed

text \<open>
  In the witness the table holds the name the truncated and normalized request would
  give (109 hyphens); the lookup of 110 slashes still returns 0.
\<close>

theorem resolve_overlong_not_found_witness:
  "(let reboot = \<lparr>head = [\<lparr>mode = replicate 109 CHR ''-'', magic = 7, mode_addr = 1, self = 0\<rparr>],
                   writes = [], registered = True\<rparr>;
        cmd = replicate 110 CHR ''/''
    in sizeof_cmd_buf \<le> length cmd \<and> (\<forall>i\<in>set (head reboot). mode i \<noteq> cmd)
       \<and> get_reboot_mode_magic reboot (Some cmd) = 0
       \<and> cmd_buf_stored reboot (Some cmd) \<le> sizeof_cmd_buf \<and> sizeof_cmd_buf = 110)"
  using resolve_overlong_not_found
          [of "replicate 110 CHR ''/''"
              "\<lparr>head = [\<lparr>mode = replicate 109 CHR ''-'', magic = 7, mode_addr = 1, self = 0\<rparr>],
                writes = [], registered = True\<rparr>"]
  by (simp add: sizeof_cmd_buf_def)

text \<open>
  C3 as stated fails: a request of 110 characters that an entry is named verbatim is
  found by the exact pass, which has no length bound.
\<close>

theorem resolve_overlong_exact_counterexample:
  "get_reboot_mode_magic
     \<lparr>head = [\<lparr>mode = replicate 110 CHR ''a'', magic = 5, mode_addr = 1, self = 0\<rparr>],
      writes = [], registered = True\<rparr> (Some (replicate 110 CHR ''a'')) = 5
   \<and> length (replicate 110 CHR ''a'') = 110"
  by (simp add: get_reboot_mode_magic_def get_reboot_mode_magic_run_def cmd_or_normal_def list_for_each_entry_find)

text \<open>
  C5. Duplicate names may coexist and the lookup returns the first match in insertion
  order: in every table, the lookup of a name returns the magic of the first entry of
  that name, whatever entries follow it. So in the table built by inserting an entry
  named "A" with magic 1 and then an entry named "A" with magic 2, the lookup of "A"
  returns 1.
\<close>

theorem resolve_first_duplicate_wins:
  assumes tbl: "head reboot = pre @ a # rest"
    and before: "\<forall>i\<in>set pre. mode i \<noteq> n"
    and named: "mode a = n"
  shows "get_reboot_mode_magic reboot (Some n) = magic a"
proof -
  have "find (\<lambda>i. mode i = cmd_or_normal (Some n)) (head reboot) = Some a"
    using find_first_named [OF before named] tbl by (simp add: cmd_or_normal_def)
  then show ?thesis by (rule get_magic_exact)
qed

text \<open>
  The witness is the table of the claim, and the same two entries inserted after an
  entry of another name.
\<close>

theorem resolve_first_duplicate_wins_witness:
  "(let a1 = \<lparr>mode = ''A'', magic = 1, mode_addr = 1, self = 0\<rparr>;
        a2 = \<lparr>mode = ''A'', magic = 2, mode_addr = 3, self = 2\<rparr>;
        b = \<lparr>mode = ''B'', magic = 7, mode_addr = 5, self = 4\<rparr>;
        reboot = \<lparr>head = list_add_tail a2 (list_add_tail a1 []),
                  writes = [], registered = True\<rparr>;
        other = \<lparr>head = list_add_tail a2 (list_add_tail a1 (list_add_tail b [])),
                 writes = [], registered = True\<rparr>
    in head reboot = [a1, a2] \<and> get_reboot_mode_magic reboot (Some ''A'') = 1
       \<and> head other = [b, a1, a2] \<and> get_reboot_mode_magic other (Some ''A'') = 1)"
  using resolve_first_duplicate_wins [of "\<lparr>head = list_add_tail \<lparr>mode = ''A'', magic = 2, mode_addr = 3, self = 2\<rparr>
                               (list_add_tail \<lparr>mode = ''A'', magic = 1, mode_addr = 1, self = 0\<rparr> []),
                     writes = [], registered = True\<rparr>"
                  "[]" "\<lparr>mode = ''A'', magic = 1, mode_addr = 1, self = 0\<rparr>"
                  "[\<lparr>mode = ''A'', magic = 2, mode_addr = 3, self = 2\<rparr>]" "''A''"]
        resolve_first_duplicate_wins [of "\<lparr>head = list_add_tail \<lparr>mode = ''A'', magic = 2, mode_addr = 3, self = 2\<rparr>
                               (list_add_tail \<lparr>mode = ''A'', magic = 1, mode_addr = 1, self = 0\<rparr>
                                  (list_add_tail \<lparr>mode = ''B'', magic = 7, mode_addr = 5, self = 4\<rparr> [])),
                     writes = [], registered = True\<rparr>"
                  "[\<lparr>mode = ''B'', magic = 7, mode_addr = 5, self = 4\<rparr>]"
                  "\<lparr>mode = ''A'', magic = 1, mode_addr = 1, self = 0\<rparr>"
                  "[\<lparr>mode = ''A'', magic = 2, mode_addr = 3, self = 2\<rparr>]" "''A''"]
  by (simp add: list_add_tail_def)

text \<open>
  C6. For every table, the lookup with an absent requested mode returns what the lookup
  of the string "normal" returns.
\<close>

theorem resolve_absent_is_normal:
  "get_reboot_mode_magic reboot None = get_reboot_mode_magic reboot (Some ''normal'')"
  by (simp add: get_reboot_mode_magic_def get_reboot_mode_magic_run_def cmd_or_normal_def normal_def)

text \<open>
  C8. Every call of the reboot notification handler returns \<open>NOTIFY_DONE\<close>, whether or
  not a magic was found; the value has no stop bit, so the handler never vetoes.
\<close>

theorem notify_always_done:
  "fst (reboot_mode_notify reboot mode_arg cmd) = NOTIFY_DONE
   \<and> fst (reboot_mode_notify reboot mode_arg cmd) AND NOTIFY_STOP_MASK = 0"
  by (simp add: reboot_mode_notify_def Let_def NOTIFY_DONE_def)



text \<open>
  C10. The exact pass has no length bound: for every table and every requested mode of
  any length, when some entry is named as the request verbatim, the lookup returns the
  magic of the first such entry. Only the normalized pass is skipped for a request that
  does not fit the buffer: without an entry named verbatim the lookup then returns 0.
\<close>

theorem resolve_exact_any_length:
  "(find (\<lambda>i. mode i = cmd_or_normal cmd0) (head reboot) = Some e
      \<longrightarrow> get_reboot_mode_magic reboot cmd0 = magic e)
   \<and> (find (\<lambda>i. mode i = cmd_or_normal cmd0) (head reboot) = None
        \<and> sizeof_cmd_buf \<le> length (cmd_or_normal cmd0)
      \<longrightarrow> get_reboot_mode_magic reboot cmd0 = 0)"
  using get_magic_exact [of cmd0 reboot e] get_magic_overlong [of cmd0 reboot] by simp

text \<open>
  The witness looks up a request of 200 characters: in a table with two entries of
  that name it finds the first, in a table without one it finds nothing.
\<close>

theorem resolve_exact_any_length_witness:
  "(let reboot = \<lparr>head = [\<lparr>mode = ''loader'', magic = 3, mode_addr = 1, self = 0\<rparr>,
                           \<lparr>mode = replicate 200 CHR ''x'', magic = 5, mode_addr = 3, self = 2\<rparr>,
                           \<lparr>mode = replicate 200 CHR ''x'', magic = 6, mode_addr = 5, self = 4\<rparr>],
                   writes = [], registered = True\<rparr>;
        other = \<lparr>head = [\<lparr>mode = ''loader'', magic = 3, mode_addr = 1, self = 0\<rparr>],
                  writes = [], registered = True\<rparr>
    in find (\<lambda>i. mode i = replicate 200 CHR ''x'') (head reboot)
         = Some \<lparr>mode = replicate 200 CHR ''x'', magic = 5, mode_addr = 3, self = 2\<rparr>
       \<and> sizeof_cmd_buf \<le> length (replicate 200 CHR ''x'')
       \<and> get_reboot_mode_magic reboot (Some (replicate 200 CHR ''x'')) = 5
       \<and> find (\<lambda>i. mode i = replicate 200 CHR ''x'') (head other) = None
       \<and> get_reboot_mode_magic other (Some (replicate 200 CHR ''x'')) = 0)"
proof -
  have ne: "''loader'' \<noteq> replicate 200 CHR ''x''"
  proof
    assume "''loader'' = replicate 200 CHR ''x''"
    then have "length ''loader'' = length (replicate 200 CHR ''x'')" by (rule arg_cong)
    then show False by simp
  qed
  show ?thesis
    using ne
      resolve_exact_any_length
          [of "Some (replicate 200 CHR ''x'')"
              "\<lparr>head = [\<lparr>mode = ''loader'', magic = 3, mode_addr = 1, self = 0\<rparr>,
                        \<lparr>mode = replicate 200 CHR ''x'', magic = 5, mode_addr = 3, self = 2\<rparr>,
                        \<lparr>mode = replicate 200 CHR ''x'', magic = 6, mode_addr = 5, self = 4\<rparr>],
                writes = [], registered = True\<rparr>"
              "\<lparr>mode = replicate 200 CHR ''x'', magic = 5, mode_addr = 3, self = 2\<rparr>"]
      resolve_exact_any_length
          [of "Some (replicate 200 CHR ''x'')"
              "\<lparr>head = [\<lparr>mode = ''loader'', magic = 3, mode_addr = 1, self = 0\<rparr>],
                writes = [], registered = True\<rparr>"]
    by (simp add: cmd_or_normal_def sizeof_cmd_buf_def)
qed

section \<open>Claims about registration\<close>

text \<open>
  C4. Registration is all-or-nothing: for every device node, when
  \<open>reboot_mode_register\<close> fails, the list of the driver is empty, every address
  allocated during the call has been freed again (the live allocations are those from
  before the call), the notifier is not registered and no write took place. The
  failure returned is \<open>-ENOMEM\<close>, and then an allocation failed, or \<open>-EINVAL\<close>, and
  then some key is the bare prefix, its name being empty.
\<close>

theorem register_all_or_nothing:
  assumes run: "reboot_mode_register reboot (Some np) m = (ret, reboot', m')"
    and err: "ret \<noteq> 0"
  shows "head reboot' = [] \<and> live m' = live m \<and> registered reboot' = registered reboot
       \<and> writes reboot' = writes reboot
       \<and> ((ret = - ENOMEM \<and> (\<exists>k. fails m k))
         \<or> (ret = - EINVAL \<and> (\<exists>p\<in>set (properties np). name p = PREFIX)))"
proof -
  obtain r lst m1 where loop: "for_each_property_of_node np (properties np) [] m = (r, lst, m1)"
    by (cases "for_each_property_of_node np (properties np) [] m")
  from run err loop obtain ret0 where r: "r = Some ret0"
    by (cases r) (auto simp: reboot_mode_register_def)
  obtain lst2 m2 where fr: "list_for_each_entry_safe lst m1 = (lst2, m2)"
    by (cases "list_for_each_entry_safe lst m1")
  from run loop r fr have res: "ret = ret0" "reboot' = reboot\<lparr>head := lst2\<rparr>" "m' = m2"
    by (auto simp: reboot_mode_register_def)
  from loop_result [OF loop] r
  have lv: "live m1 = live m + owned lst"
    and code: "(ret0 = - ENOMEM \<and> (\<exists>k. fails m k))
         \<or> (ret0 = - EINVAL \<and> (\<exists>p\<in>set (properties np). name p = PREFIX))"
    by auto
  from free_all [OF fr] lv have "lst2 = []" "live m2 = live m" by auto
  with res code show ?thesis by simp
qed

text \<open>
  Two failing runs, each after a first entry was inserted: the second key is the bare
  prefix; the copy of the second name cannot be allocated.
\<close>

theorem register_all_or_nothing_witness:
  "(let res = reboot_mode_register \<lparr>head = [], writes = [], registered = False\<rparr>
                (Some \<lparr>properties = [\<lparr>name = ''mode-a'', cells = [1]\<rparr>,
                                     \<lparr>name = ''mode-'', cells = [2]\<rparr>]\<rparr>)
                \<lparr>live = {#}, attempts = 0, fails = (\<lambda>k. False)\<rparr>;
        res2 = reboot_mode_register \<lparr>head = [], writes = [], registered = False\<rparr>
                (Some \<lparr>properties = [\<lparr>name = ''mode-a'', cells = [1]\<rparr>,
                                     \<lparr>name = ''mode-b'', cells = [2]\<rparr>]\<rparr>)
                \<lparr>live = {#}, attempts = 0, fails = (\<lambda>k. k = 3)\<rparr>
    in fst res = - EINVAL \<and> fst res \<noteq> 0 \<and> head (fst (snd res)) = []
       \<and> live (snd (snd res)) = {#}
       \<and> fst res2 = - ENOMEM \<and> fst res2 \<noteq> 0 \<and> head (fst (snd res2)) = []
       \<and> live (snd (snd res2)) = {#})"
proof -
  let ?res = "reboot_mode_register \<lparr>head = [], writes = [], registered = False\<rparr>
                (Some \<lparr>properties = [\<lparr>name = ''mode-a'', cells = [1]\<rparr>,
                                     \<lparr>name = ''mode-'', cells = [2]\<rparr>]\<rparr>)
                \<lparr>live = {#}, attempts = 0, fails = (\<lambda>k. False)\<rparr>"
  let ?res2 = "reboot_mode_register \<lparr>head = [], writes = [], registered = False\<rparr>
                (Some \<lparr>properties = [\<lparr>name = ''mode-a'', cells = [1]\<rparr>,
                                     \<lparr>name = ''mode-b'', cells = [2]\<rparr>]\<rparr>)
                \<lparr>live = {#}, attempts = 0, fails = (\<lambda>k. k = 3)\<rparr>"
  have ret: "fst ?res = - EINVAL"
    by (simp add: reboot_mode_register_def strncmp_take PREFIX_def kzalloc_def kstrdup_const_def
        of_property_read_u32_def of_property_read_u32_index_def strcmp_eq_0 Let_def
        list_add_tail_def kfree_def kfree_const_def)
  have ret2: "fst ?res2 = - ENOMEM"
    by (simp add: reboot_mode_register_def strncmp_take PREFIX_def kzalloc_def kstrdup_const_def
        of_property_read_u32_def of_property_read_u32_index_def strcmp_eq_0 Let_def
        list_add_tail_def kfree_def kfree_const_def)
  have ne: "fst ?res \<noteq> 0" by (simp add: ret EINVAL_def)
  have ne2: "fst ?res2 \<noteq> 0" by (simp add: ret2 ENOMEM_def)
  have run: "?res = (fst ?res, fst (snd ?res), snd (snd ?res))" by simp
  have run2: "?res2 = (fst ?res2, fst (snd ?res2), snd (snd ?res2))" by simp
  from register_all_or_nothing [OF run ne] register_all_or_nothing [OF run2 ne2] ret ne ret2 ne2
  show ?thesis by (simp add: Let_def)
qed

text \<open>
  C7, as amended. For every device node in which no qualifying entry has an empty
  name, if no allocation fails, registration succeeds and the table holds, in scan
  order, exactly the entries of the qualifying properties whose low magic can be read,
  each with the key without its prefix as name and \<open>(high << 32) | low\<close> as magic. So
  the table has as many entries as there are qualifying properties, less those skipped
  for a missing low magic.
\<close>

theorem register_builds_table:
  assumes nofail: "\<forall>k. \<not> fails m k"
    and names: "\<forall>p\<in>set (properties np). qualifies p \<longrightarrow> drop (length PREFIX) (name p) \<noteq> []"
    and run: "reboot_mode_register reboot (Some np) m = (ret, reboot', m')"
  shows "ret = 0
     \<and> map (\<lambda>i. (mode i, magic i)) (head reboot')
         = List.map_filter (spec_entry np) (filter qualifies (properties np))
     \<and> length (head reboot')
         + length (filter (\<lambda>p. qualifies p \<and> \<not> has_low np p) (properties np))
         = length (filter qualifies (properties np))"
proof -
  from loop_success [OF nofail names, of np "[]"]
  obtain lst m1 where loop: "for_each_property_of_node np (properties np) [] m = (None, lst, m1)"
    and tbl: "map (\<lambda>i. (mode i, magic i)) lst
         = List.map_filter (spec_entry np) (filter qualifies (properties np))"
    by auto
  from run loop have r: "ret = 0" "head reboot' = lst"
    by (auto simp: reboot_mode_register_def)
  from tbl have "length (map (\<lambda>i. (mode i, magic i)) lst)
      = length (List.map_filter (spec_entry np) (filter qualifies (properties np)))"
    by (rule arg_cong)
  then have "length lst = length (List.map_filter (spec_entry np) (filter qualifies (properties np)))"
    by simp
  with r tbl length_spec_entries [of np "properties np"] show ?thesis by simp
qed

theorem register_builds_table_witness:
  "(let np = \<lparr>properties = [\<lparr>name = ''compatible'', cells = []\<rparr>,
                             \<lparr>name = ''mode-a'', cells = [1]\<rparr>,
                             \<lparr>name = ''mode-b'', cells = []\<rparr>,
                             \<lparr>name = ''mode-c'', cells = [3, 4]\<rparr>]\<rparr>;
        res = reboot_mode_register \<lparr>head = [], writes = [], registered = False\<rparr> (Some np)
                \<lparr>live = {#}, attempts = 0, fails = (\<lambda>k. False)\<rparr>
    in (\<forall>p\<in>set (properties np). qualifies p \<longrightarrow> drop (length PREFIX) (name p) \<noteq> [])
       \<and> fst res = 0
       \<and> map (\<lambda>i. (mode i, magic i)) (head (fst (snd res))) = [(''a'', 1), (''c'', 0x400000003)]
       \<and> length (head (fst (snd res))) + 1 = 3)"
proof -
  let ?np = "\<lparr>properties = [\<lparr>name = ''compatible'', cells = []\<rparr>,
                             \<lparr>name = ''mode-a'', cells = [1]\<rparr>,
                             \<lparr>name = ''mode-b'', cells = []\<rparr>,
                             \<lparr>name = ''mode-c'', cells = [3, 4]\<rparr>]\<rparr>"
  let ?m = "\<lparr>live = {#}, attempts = 0, fails = (\<lambda>k. False)\<rparr>"
  let ?res = "reboot_mode_register \<lparr>head = [], writes = [], registered = False\<rparr> (Some ?np) ?m"
  have nofail: "\<forall>k. \<not> fails ?m k" by simp
  have names: "\<forall>p\<in>set (properties ?np). qualifies p \<longrightarrow> drop (length PREFIX) (name p) \<noteq> []"
    by (simp add: PREFIX_def)
  have run: "?res = (fst ?res, fst (snd ?res), snd (snd ?res))" by simp
  have ents: "List.map_filter (spec_entry ?np) (filter qualifies (properties ?np))
        = [(''a'', 1), (''c'', 0x400000003)]"
    by (simp add: qualifies_def spec_entry_def map_filter_simps PREFIX_def
        of_property_read_u32_def of_property_read_u32_index_def strcmp_eq_0)
  have cnt: "length (filter (\<lambda>p. qualifies p \<and> \<not> has_low ?np p) (properties ?np)) = 1"
    "length (filter qualifies (properties ?np)) = 3"
    by (simp_all add: qualifies_def has_low_def PREFIX_def
        of_property_read_u32_def of_property_read_u32_index_def strcmp_eq_0)
  from register_builds_table [OF nofail names run] names show ?thesis
    unfolding ents cnt by (simp add: Let_def)
qed

text \<open>
  C7 as stated fails when memory runs out: the node has one qualifying entry with a
  name and a magic, the first allocation fails, and registration returns \<open>-ENOMEM\<close>.
\<close>

theorem register_oom_counterexample:
  "fst (reboot_mode_register \<lparr>head = [], writes = [], registered = False\<rparr>
          (Some \<lparr>properties = [\<lparr>name = ''mode-a'', cells = [1]\<rparr>]\<rparr>)
          \<lparr>live = {#}, attempts = 0, fails = (=) 0\<rparr>) = - ENOMEM
   \<and> - ENOMEM \<noteq> 0"
  by (simp add: reboot_mode_register_def strncmp_take PREFIX_def kzalloc_def ENOMEM_def)

end
